theory Spec2Isabelle
  imports Main "HOL-Library.Word" "HOL-Library.Log_Nat"
begin

section \<open>Strings\<close>

text \<open>
  Python strings are modelled as \<open>string\<close>; a \<open>char\<close> is read as a code point
  below 256. The helpers below are the parts of \<open>str\<close> and \<open>re\<close> that
  \<open>ai_engine.py\<close> calls, restricted to such code points.
\<close>

definition is_space :: "char \<Rightarrow> bool" where
  "is_space c =
     (let n = (of_char c :: nat)
      in (9 \<le> n \<and> n \<le> 13) \<or> (28 \<le> n \<and> n \<le> 32) \<or> n = 133 \<or> n = 160)"

definition is_alnum :: "char \<Rightarrow> bool" where
  "is_alnum c =
     (let n = (of_char c :: nat)
      in (48 \<le> n \<and> n \<le> 57) \<or> (65 \<le> n \<and> n \<le> 90) \<or> (97 \<le> n \<and> n \<le> 122))"

definition lower_char :: "char \<Rightarrow> char" where
  "lower_char c =
     (let n = (of_char c :: nat)
      in if (65 \<le> n \<and> n \<le> 90) \<or> (192 \<le> n \<and> n \<le> 222 \<and> n \<noteq> 215)
         then char_of (n + 32) else c)"

definition lower :: "string \<Rightarrow> string" where
  "lower s = map lower_char s"

definition strip :: "string \<Rightarrow> string" where
  "strip s = rev (dropWhile is_space (rev (dropWhile is_space s)))"

text \<open>\<open>re.findall(r"[A-Za-z0-9]+", s)\<close>: the maximal runs of alphanumerics, left to right.\<close>

fun findall_acc :: "string \<Rightarrow> string \<Rightarrow> string list" where
  "findall_acc cur [] = (if cur = [] then [] else [cur])"
| "findall_acc cur (c # cs) =
     (if is_alnum c then findall_acc (cur @ [c]) cs
      else (if cur = [] then [] else [cur]) @ findall_acc [] cs)"

definition findall_alnum :: "string \<Rightarrow> string list" where
  "findall_alnum s = findall_acc [] s"

text \<open>\<open>s.split()\<close>: the maximal runs of non-whitespace.\<close>

fun split_ws_acc :: "string \<Rightarrow> string \<Rightarrow> string list" where
  "split_ws_acc cur [] = (if cur = [] then [] else [cur])"
| "split_ws_acc cur (c # cs) =
     (if is_space c then (if cur = [] then [] else [cur]) @ split_ws_acc [] cs
      else split_ws_acc (cur @ [c]) cs)"

definition split_ws :: "string \<Rightarrow> string list" where
  "split_ws s = split_ws_acc [] s"

text \<open>\<open>sep.join(xs)\<close>.\<close>

fun join :: "string \<Rightarrow> string list \<Rightarrow> string" where
  "join sep [] = []"
| "join sep [x] = x"
| "join sep (x # y # ys) = x @ sep @ join sep (y # ys)"

text \<open>\<open>str(n)\<close> for a non-negative integer, as the f-strings \<open>{idx}\<close> and \<open>{idx+1}\<close> need it.\<close>

definition digit_char :: "nat \<Rightarrow> char" where
  "digit_char d = char_of (48 + d)"

function str_nat :: "nat \<Rightarrow> string" where
  "str_nat n = (if n < 10 then [digit_char n] else str_nat (n div 10) @ [digit_char (n mod 10)])"
  by pat_completeness auto
termination
  by (relation "measure (\<lambda>n. n)") auto

declare str_nat.simps [simp del]

section \<open>Quiz items\<close>

text \<open>
  A quiz item is a Python dict. Each key the code reads is a field that may be absent:
  \<open>item["k"]\<close> on an absent key raises \<open>KeyError\<close>, \<open>item.get("k", d)\<close> returns \<open>d\<close>.
\<close>

record quiz_item =
  item_type :: "string option"
  question :: "string option"
  options :: "string list option"
  answer :: "string option"
  explanation :: "string option"
  ideal_answer :: "string option"
  item_keywords :: "string list option"
  topic_tag :: "string option"

datatype error = KeyError string

definition get_or :: "'a option \<Rightarrow> 'a \<Rightarrow> 'a" where
  "get_or v d = (case v of None \<Rightarrow> d | Some x \<Rightarrow> x)"

section \<open>Item generator\<close>

text \<open>
  The module \<open>random\<close> is an explicit stream of raw draws: \<open>random.choice(seq)\<close>
  consumes one draw and returns an element of \<open>seq\<close>.
\<close>

type_synonym rng = "nat \<Rightarrow> nat"

definition random_choice :: "'a list \<Rightarrow> rng \<Rightarrow> 'a \<times> rng" where
  "random_choice xs g = (xs ! (g 0 mod length xs), \<lambda>n. g (Suc n))"

definition mcq_options :: "string \<Rightarrow> string \<Rightarrow> string list" where
  "mcq_options topic subject =
     [''Option A related to '' @ topic,
      ''Option B about '' @ subject,
      ''Option C factual detail'',
      ''Option D common misconception'']"

definition mcq_item :: "string \<Rightarrow> string \<Rightarrow> string \<Rightarrow> char \<Rightarrow> quiz_item" where
  "mcq_item topic subject difficulty correct =
     (let stem = subject @ '': On '' @ [CHR 0x27] @ topic @ [CHR 0x27]
                   @ '', which option is correct? (Level: '' @ difficulty @ '')'';
          opts = mcq_options topic subject
      in \<lparr> item_type = Some ''mcq'',
           question = Some stem,
           options = Some opts,
           answer = Some (opts ! ((of_char correct :: nat) - of_char (CHR ''A''))),
           explanation = Some (''The correct answer is '' @ [correct]
                                 @ '' due to core concept alignment.''),
           ideal_answer = None,
           item_keywords = None,
           topic_tag = Some topic \<rparr>)"

fun mcq_loop :: "string \<Rightarrow> string \<Rightarrow> string \<Rightarrow> nat \<Rightarrow> rng \<Rightarrow> quiz_item list \<times> rng" where
  "mcq_loop topic subject difficulty 0 g = ([], g)"
| "mcq_loop topic subject difficulty (Suc k) g =
     (let (correct, g1) = random_choice ''ABCD'' g;
          (rest, g2) = mcq_loop topic subject difficulty k g1
      in (mcq_item topic subject difficulty correct # rest, g2))"

text \<open>\<open>range(n)\<close> is empty for \<open>n \<le> 0\<close>, hence \<open>nat n\<close> iterations.\<close>

definition generate_mcq :: "string \<Rightarrow> string \<Rightarrow> string \<Rightarrow> int \<Rightarrow> rng \<Rightarrow> quiz_item list \<times> rng" where
  "generate_mcq topic subject difficulty n g = mcq_loop topic subject difficulty (nat n) g"

definition starters :: "string list" where
  "starters =
     [''Explain the concept of'',
      ''Give a short definition of'',
      ''List two key points about'',
      ''Describe a real-world application of'']"

definition short_item :: "string \<Rightarrow> string \<Rightarrow> string \<Rightarrow> string \<Rightarrow> quiz_item" where
  "short_item topic subject difficulty starter =
     (let q = starter @ '' '' @ topic @ '' in '' @ subject @ ''. (Level: '' @ difficulty @ '')'';
          ideal = ''An ideal answer should mention the core definition, one example, and a ''
                    @ lower difficulty @ '' nuance.''
      in \<lparr> item_type = Some ''short'',
           question = Some q,
           options = None,
           answer = None,
           explanation = None,
           ideal_answer = Some ideal,
           item_keywords = Some (take 4 (map strip (filter (\<lambda>kw. length kw > 3) (split_ws topic)))),
           topic_tag = Some topic \<rparr>)"

fun short_loop :: "string \<Rightarrow> string \<Rightarrow> string \<Rightarrow> nat \<Rightarrow> rng \<Rightarrow> quiz_item list \<times> rng" where
  "short_loop topic subject difficulty 0 g = ([], g)"
| "short_loop topic subject difficulty (Suc k) g =
     (let (starter, g1) = random_choice starters g;
          (rest, g2) = short_loop topic subject difficulty k g1
      in (short_item topic subject difficulty starter # rest, g2))"

definition generate_short :: "string \<Rightarrow> string \<Rightarrow> string \<Rightarrow> int \<Rightarrow> rng \<Rightarrow> quiz_item list \<times> rng" where
  "generate_short topic subject difficulty n g = short_loop topic subject difficulty (nat n) g"

definition generate_quiz_items ::
  "string \<Rightarrow> string \<Rightarrow> string \<Rightarrow> int \<Rightarrow> int \<Rightarrow> rng \<Rightarrow> quiz_item list \<times> rng" where
  "generate_quiz_items topic subject difficulty num_mcq num_short g =
     (let (mcqs, g1) = generate_mcq topic subject difficulty num_mcq g;
          (shorts, g2) = generate_short topic subject difficulty num_short g1
      in (mcqs @ shorts, g2))"

section \<open>Submission grader\<close>

text \<open>
  The answers dict maps \<open>"q_<idx>"\<close> to the submitted text (the UI stores strings, on
  which \<open>str\<close> is the identity). The three loop variables \<open>score\<close>, \<open>feedback_list\<close>
  and \<open>weak_areas\<close> are passed as a triple.
\<close>

type_synonym answers = "string \<rightharpoonup> string"

type_synonym grade_vars = "int \<times> string list \<times> string list"

record grade_result =
  score :: int
  total :: int
  feedback_list :: "string list"
  weak_areas :: "string list"

definition user_answer :: "answers \<Rightarrow> nat \<Rightarrow> string" where
  "user_answer answers idx = strip (get_or (answers (''q_'' @ str_nat idx)) [])"

definition user_tokens :: "string \<Rightarrow> string set" where
  "user_tokens user_ans = set (findall_alnum (lower user_ans))"

definition keyword_hits :: "string list \<Rightarrow> string \<Rightarrow> nat" where
  "keyword_hits kws user_ans =
     length (filter (\<lambda>kw. lower kw \<in> user_tokens user_ans) kws)"

definition miss :: "string list \<Rightarrow> string \<Rightarrow> string list" where
  "miss kws user_ans = filter (\<lambda>kw. lower kw \<notin> user_tokens user_ans) kws"

text \<open>The body of the \<open>for idx, item in enumerate(items)\<close> loop.\<close>

fun grade_item :: "nat \<Rightarrow> quiz_item \<Rightarrow> answers \<Rightarrow> grade_vars \<Rightarrow> error + grade_vars" where
  "grade_item idx item answers (sc, fb, wa) =
     (let user_ans = user_answer answers idx
      in (case item_type item of
            None \<Rightarrow> Inl (KeyError ''type'')
          | Some t \<Rightarrow>
              (if t = ''mcq'' then
                 (case answer item of
                    None \<Rightarrow> Inl (KeyError ''answer'')
                  | Some a \<Rightarrow>
                      (let correct = strip a
                       in (if user_ans = correct
                           then Inr (sc + 1, fb @ [''Q'' @ str_nat (idx + 1) @ '': Correct.''], wa)
                           else (case explanation item of
                                   None \<Rightarrow> Inl (KeyError ''explanation'')
                                 | Some e \<Rightarrow>
                                     Inr (sc,
                                          fb @ [''Q'' @ str_nat (idx + 1) @ '': Incorrect. '' @ e],
                                          wa @ [get_or (topic_tag item) []])))))
               else
                 (let kws = get_or (item_keywords item) [];
                      hits = keyword_hits kws user_ans
                  in (if max 1 (length kws div 2) \<le> hits
                      then Inr (sc + 1,
                                fb @ [''Q'' @ str_nat (idx + 1) @ '': Good. Covered key points.''],
                                wa)
                      else (let ms = miss kws user_ans
                            in Inr (sc,
                                    fb @ [''Q'' @ str_nat (idx + 1)
                                            @ '': Needs improvement. Mention: ''
                                            @ (if ms \<noteq> [] then join '', '' ms else ''more specifics'')
                                            @ ''.''],
                                    wa @ (if ms \<noteq> [] then ms
                                          else [get_or (topic_tag item) []]))))))))"

declare grade_item.simps [simp del]

fun grade_loop :: "nat \<Rightarrow> quiz_item list \<Rightarrow> answers \<Rightarrow> grade_vars \<Rightarrow> error + grade_vars" where
  "grade_loop idx [] answers vars = Inr vars"
| "grade_loop idx (item # items) answers vars =
     (case grade_item idx item answers vars of
        Inl e \<Rightarrow> Inl e
      | Inr vars' \<Rightarrow> grade_loop (Suc idx) items answers vars')"

definition grade_quiz_submission :: "quiz_item list \<Rightarrow> answers \<Rightarrow> error + grade_result" where
  "grade_quiz_submission items answers =
     (case grade_loop 0 items answers (0, [], []) of
        Inl e \<Rightarrow> Inl e
      | Inr (sc, fb, wa) \<Rightarrow>
          Inr \<lparr> score = sc,
                total = int (length items),
                feedback_list = fb,
                weak_areas = filter (\<lambda>w. w \<noteq> []) wa \<rparr>)"

section \<open>Analytics aggregator\<close>


subsection \<open>Average percentage\<close>


text \<open>
  A float64 is modelled by the rational number it denotes. \<open>float64 x\<close> is the float64
  nearest to \<open>x\<close>, ties to the even significand, as every IEEE 754 operation rounds
  its exact result: \<open>ilog2 \<bar>x\<bar>\<close> is the binary exponent of \<open>x\<close>, and the significand
  has 53 bits. Exponents outside the range of the format (below \<open>-1022\<close> or above
  \<open>1023\<close>) do not arise from quotients of 64-bit integers and their products with 100,
  and are not modelled.
\<close>

definition pow2 :: "int \<Rightarrow> rat" where
  "pow2 e = (if 0 \<le> e then 2 ^ nat e else 1 / 2 ^ nat (- e))"





subsection \<open>Weak-area frequency\<close>







section \<open>Reference notions used in the statements\<close>

text \<open>A generator whose every raw draw is \<open>k\<close>, for concrete runs.\<close>

definition const_rng :: "nat \<Rightarrow> rng" where
  "const_rng k n = k"

text \<open>
  A token of \<open>s\<close> in the words of the specification: a non-empty run of alphanumeric
  characters of \<open>s\<close> that is bounded on each side by the end of \<open>s\<close> or by a
  non-alphanumeric character.
\<close>

definition alnum_token :: "string \<Rightarrow> string \<Rightarrow> bool" where
  "alnum_token s t \<longleftrightarrow>
     t \<noteq> [] \<and> (\<forall>c \<in> set t. is_alnum c) \<and>
     (\<exists>pre post. s = pre @ t @ post
        \<and> (pre = [] \<or> \<not> is_alnum (last pre))
        \<and> (post = [] \<or> \<not> is_alnum (hd post)))"

text \<open>
  The keys that \<open>grade_quiz_submission\<close> indexes without a default: \<open>type\<close> on every
  item; \<open>answer\<close> and \<open>explanation\<close> on an mcq item. The items of the data model carry them.
\<close>

definition well_formed :: "quiz_item \<Rightarrow> bool" where
  "well_formed item =
     (case item_type item of
        None \<Rightarrow> False
      | Some t \<Rightarrow> t = ''mcq'' \<longrightarrow> answer item \<noteq> None \<and> explanation item \<noteq> None)"

text \<open>The two items of the scenarios in the specification, and their submissions.\<close>

definition demo_mcq :: quiz_item where
  "demo_mcq =
     \<lparr> item_type = Some ''mcq'',
       question = Some ''Which option is correct?'',
       options = Some [''o1'', ''o2'', ''o3'', ''o4''],
       answer = Some ''o2'',
       explanation = Some ''The correct answer is B due to core concept alignment.'',
       ideal_answer = None,
       item_keywords = None,
       topic_tag = Some ''sets'' \<rparr>"

definition demo_short :: quiz_item where
  "demo_short =
     \<lparr> item_type = Some ''short'',
       question = Some ''Explain the concept of calculus.'',
       options = None,
       answer = None,
       explanation = None,
       ideal_answer = Some ''An ideal answer should mention the core definition.'',
       item_keywords = Some [''derivative'', ''integral''],
       topic_tag = Some ''calculus'' \<rparr>"

definition demo_answers :: answers where
  "demo_answers = [''q_0'' \<mapsto> ''o2'', ''q_1'' \<mapsto> ''The Derivative is a slope.'']"

text \<open>The same submission with one more key, which no item of a two-item quiz reads.\<close>

definition more_answers :: answers where
  "more_answers = demo_answers(''q_2'' \<mapsto> ''unused'')"










section \<open>Properties of the item generator\<close>

lemma random_choice_mem: "xs \<noteq> [] \<Longrightarrow> fst (random_choice xs g) \<in> set xs"
  by (simp add: random_choice_def)

lemma length_mcq_loop: "length (fst (mcq_loop t s d k g)) = k"
  by (induction k arbitrary: g) (simp_all add: case_prod_beta Let_def)

lemma length_short_loop: "length (fst (short_loop t s d k g)) = k"
  by (induction k arbitrary: g) (simp_all add: case_prod_beta Let_def)

lemma mcq_loop_items:
  "item \<in> set (fst (mcq_loop t s d k g)) \<Longrightarrow> \<exists>c \<in> set ''ABCD''. item = mcq_item t s d c"
proof (induction k arbitrary: g)
  case 0
  then show ?case by simp
next
  case (Suc k)
  let ?r = "random_choice ''ABCD'' g"
  from Suc.prems
  have "item = mcq_item t s d (fst ?r) \<or> item \<in> set (fst (mcq_loop t s d k (snd ?r)))"
    by (simp add: case_prod_beta Let_def)
  moreover have "fst ?r \<in> set ''ABCD''"
    by (rule random_choice_mem) simp
  ultimately show ?case
    using Suc.IH by blast
qed

lemma short_loop_items:
  "item \<in> set (fst (short_loop t s d k g)) \<Longrightarrow> \<exists>st \<in> set starters. item = short_item t s d st"
proof (induction k arbitrary: g)
  case 0
  then show ?case by simp
next
  case (Suc k)
  let ?r = "random_choice starters g"
  from Suc.prems
  have "item = short_item t s d (fst ?r) \<or> item \<in> set (fst (short_loop t s d k (snd ?r)))"
    by (simp add: case_prod_beta Let_def)
  moreover have "fst ?r \<in> set starters"
    by (rule random_choice_mem) (simp add: starters_def)
  ultimately show ?case
    using Suc.IH by blast
qed

lemma mcq_item_type: "item_type (mcq_item t s d c) = Some ''mcq''"
  by (simp add: mcq_item_def Let_def)

lemma short_item_type: "item_type (short_item t s d st) = Some ''short''"
  by (simp add: short_item_def Let_def)

lemma mcq_item_answer_in_options:
  "c \<in> set ''ABCD'' \<Longrightarrow>
   \<exists>opts a. options (mcq_item t s d c) = Some opts \<and> answer (mcq_item t s d c) = Some a
     \<and> length opts = 4 \<and> a \<in> set opts"
  by (auto simp: mcq_item_def mcq_options_def Let_def)

lemma fst_generate_quiz_items:
  "fst (generate_quiz_items t s d m n g) =
     fst (mcq_loop t s d (nat m) g) @ fst (short_loop t s d (nat n) (snd (mcq_loop t s d (nat m) g)))"
  by (simp add: generate_quiz_items_def generate_mcq_def generate_short_def split: prod.splits)

text \<open>
  Claim C5: every mcq item that the item generator produces has an options list of
  exactly four strings, and its answer is one of them. This holds for every outcome of
  the random draws, both for \<open>_generate_mcq\<close> itself and for the mcq items among the
  result of \<open>generate_quiz_items\<close>.
\<close>

theorem generated_mcq_has_four_options:
  "(\<forall>item \<in> set (fst (generate_mcq topic subject difficulty n g)).
      item_type item = Some ''mcq'' \<and>
      (\<exists>opts a. options item = Some opts \<and> answer item = Some a \<and> length opts = 4 \<and> a \<in> set opts))
   \<and> (\<forall>item \<in> set (fst (generate_quiz_items topic subject difficulty num_mcq num_short g)).
      item_type item = Some ''mcq'' \<longrightarrow>
      (\<exists>opts a. options item = Some opts \<and> answer item = Some a \<and> length opts = 4 \<and> a \<in> set opts))"
proof -
  have loop: "item_type item = Some ''mcq'' \<and>
      (\<exists>opts a. options item = Some opts \<and> answer item = Some a \<and> length opts = 4 \<and> a \<in> set opts)"
    if "item \<in> set (fst (mcq_loop topic subject difficulty k h))" for item k h
  proof -
    from that obtain c where "c \<in> set ''ABCD''" "item = mcq_item topic subject difficulty c"
      using mcq_loop_items by blast
    then show ?thesis
      using mcq_item_answer_in_options [of c topic subject difficulty] mcq_item_type by simp
  qed
  have short: "item_type item \<noteq> Some ''mcq''"
    if "item \<in> set (fst (short_loop topic subject difficulty k h))" for item k h
  proof -
    from that obtain st where "item = short_item topic subject difficulty st"
      using short_loop_items by blast
    then show ?thesis by (simp add: short_item_type)
  qed
  show ?thesis
    unfolding generate_mcq_def fst_generate_quiz_items set_append
    using loop short by blast
qed

text \<open>Two items generated with every draw equal to 6, which selects letter C.\<close>

theorem generated_mcq_has_four_options_witness:
  "hd (fst (generate_mcq ''sets'' ''Math'' ''Easy'' 2 (const_rng 6)))
     \<in> set (fst (generate_mcq ''sets'' ''Math'' ''Easy'' 2 (const_rng 6)))
   \<and> item_type (hd (fst (generate_mcq ''sets'' ''Math'' ''Easy'' 2 (const_rng 6)))) = Some ''mcq''
   \<and> (\<exists>opts a.
        options (hd (fst (generate_mcq ''sets'' ''Math'' ''Easy'' 2 (const_rng 6)))) = Some opts
        \<and> answer (hd (fst (generate_mcq ''sets'' ''Math'' ''Easy'' 2 (const_rng 6)))) = Some a
        \<and> length opts = 4 \<and> a \<in> set opts)
   \<and> answer (hd (fst (generate_mcq ''sets'' ''Math'' ''Easy'' 2 (const_rng 6))))
       = Some ''Option C factual detail''"
proof -
  let ?items = "fst (generate_mcq ''sets'' ''Math'' ''Easy'' 2 (const_rng 6))"
  have "?items \<noteq> []"
    by code_simp
  then have mem: "hd ?items \<in> set ?items"
    by (rule hd_in_set)
  have ans: "answer (hd ?items) = Some ''Option C factual detail''"
    by code_simp
  from mem ans show ?thesis
    using generated_mcq_has_four_options [of "''sets''" "''Math''" "''Easy''" 2 "const_rng 6"]
    by blast
qed

lemma generate_quiz_items_shape:
  "length (fst (generate_quiz_items topic subject difficulty num_mcq num_short g))
     = nat num_mcq + nat num_short
   \<and> (\<forall>i < nat num_mcq.
        item_type (fst (generate_quiz_items topic subject difficulty num_mcq num_short g) ! i)
          = Some ''mcq'')
   \<and> (\<forall>i. nat num_mcq \<le> i \<and> i < nat num_mcq + nat num_short \<longrightarrow>
        item_type (fst (generate_quiz_items topic subject difficulty num_mcq num_short g) ! i)
          = Some ''short'')"
proof -
  let ?ms = "fst (mcq_loop topic subject difficulty (nat num_mcq) g)"
  let ?ss = "fst (short_loop topic subject difficulty (nat num_short)
                    (snd (mcq_loop topic subject difficulty (nat num_mcq) g)))"
  have items: "fst (generate_quiz_items topic subject difficulty num_mcq num_short g) = ?ms @ ?ss"
    by (rule fst_generate_quiz_items)
  have lm: "length ?ms = nat num_mcq" by (rule length_mcq_loop)
  have ls: "length ?ss = nat num_short" by (rule length_short_loop)
  have m: "item_type ((?ms @ ?ss) ! i) = Some ''mcq''" if "i < nat num_mcq" for i
  proof -
    from that lm have "(?ms @ ?ss) ! i = ?ms ! i" "?ms ! i \<in> set ?ms"
      by (simp_all add: nth_append)
    then show ?thesis
      using mcq_loop_items mcq_item_type by metis
  qed
  have s: "item_type ((?ms @ ?ss) ! i) = Some ''short''"
    if "nat num_mcq \<le> i \<and> i < nat num_mcq + nat num_short" for i
  proof -
    from that ls have "i - nat num_mcq < length ?ss"
      by linarith
    with that lm have "(?ms @ ?ss) ! i = ?ss ! (i - nat num_mcq)" "?ss ! (i - nat num_mcq) \<in> set ?ss"
      by (simp_all add: nth_append)
    then show ?thesis
      using short_loop_items short_item_type by metis
  qed
  show ?thesis
    unfolding items using lm ls m s by simp
qed

text \<open>
  Claim C4: for every topic, subject and difficulty, every outcome of the random draws
  and all counts \<open>num_mcq\<close> and \<open>num_short\<close> (numbers of items, so not negative),
  \<open>generate_quiz_items\<close> returns exactly \<open>num_mcq + num_short\<close> items, of which the
  first \<open>num_mcq\<close> have type mcq and the remaining \<open>num_short\<close> have type short, in
  that order.
\<close>

theorem generate_quiz_items_count:
  assumes "0 \<le> num_mcq" and "0 \<le> num_short"
  shows "int (length (fst (generate_quiz_items topic subject difficulty num_mcq num_short g)))
           = num_mcq + num_short
         \<and> (\<forall>i. int i < num_mcq \<longrightarrow>
               item_type (fst (generate_quiz_items topic subject difficulty num_mcq num_short g) ! i)
                 = Some ''mcq'')
         \<and> (\<forall>i. num_mcq \<le> int i \<and> int i < num_mcq + num_short \<longrightarrow>
               item_type (fst (generate_quiz_items topic subject difficulty num_mcq num_short g) ! i)
                 = Some ''short'')"
proof -
  note shape = generate_quiz_items_shape [of topic subject difficulty num_mcq num_short g]
  have lt: "int i < num_mcq \<longleftrightarrow> i < nat num_mcq" for i
    using assms(1) by linarith
  have between: "num_mcq \<le> int i \<and> int i < num_mcq + num_short
                   \<longleftrightarrow> nat num_mcq \<le> i \<and> i < nat num_mcq + nat num_short" for i
    using assms by linarith
  from shape assms show ?thesis
    unfolding lt between by simp
qed

text \<open>Three mcq and two short items.\<close>

theorem generate_quiz_items_count_witness:
  "(0::int) \<le> 3 \<and> (0::int) \<le> 2
   \<and> int (length (fst (generate_quiz_items ''sets'' ''Math'' ''Easy'' 3 2 (const_rng 1)))) = 3 + 2
   \<and> map item_type (fst (generate_quiz_items ''sets'' ''Math'' ''Easy'' 3 2 (const_rng 1)))
       = [Some ''mcq'', Some ''mcq'', Some ''mcq'', Some ''short'', Some ''short'']"
proof -
  have h: "(0::int) \<le> 3" "(0::int) \<le> 2"
    by simp_all
  have "map item_type (fst (generate_quiz_items ''sets'' ''Math'' ''Easy'' 3 2 (const_rng 1)))
       = [Some ''mcq'', Some ''mcq'', Some ''mcq'', Some ''short'', Some ''short'']"
    by code_simp
  then show ?thesis
    using generate_quiz_items_count [OF h, of "''sets''" "''Math''" "''Easy''" "const_rng 1"]
    by simp
qed

section \<open>Tokens\<close>

lemma findall_acc_sound:
  "t \<in> set (findall_acc cur s) \<Longrightarrow> \<forall>c \<in> set cur. is_alnum c \<Longrightarrow>
   t \<noteq> [] \<and> (\<forall>c \<in> set t. is_alnum c) \<and>
   (\<exists>pre post. cur @ s = pre @ t @ post
        \<and> (pre = [] \<or> \<not> is_alnum (last pre))
        \<and> (post = [] \<or> \<not> is_alnum (hd post)))"
proof (induction s arbitrary: cur)
  case Nil
  then have "t = cur" "cur \<noteq> []"
    by (auto split: if_splits)
  moreover from this have "cur @ [] = [] @ t @ []"
    by simp
  ultimately show ?case
    using Nil.prems(2) by blast
next
  case (Cons c cs)
  show ?case
  proof (cases "is_alnum c")
    case True
    with Cons.prems have "t \<in> set (findall_acc (cur @ [c]) cs)" "\<forall>x \<in> set (cur @ [c]). is_alnum x"
      by auto
    from Cons.IH [OF this] show ?thesis by simp
  next
    case False
    with Cons.prems consider (cur) "t = cur" "cur \<noteq> []" | (rest) "t \<in> set (findall_acc [] cs)"
      by (auto split: if_splits)
    then show ?thesis
    proof cases
      case cur
      have "cur @ c # cs = [] @ t @ (c # cs)"
        using cur by simp
      with cur Cons.prems(2) False show ?thesis
        by (metis list.sel(1))
    next
      case rest
      from Cons.IH [OF rest] obtain pre post
        where t: "t \<noteq> []" "\<forall>c \<in> set t. is_alnum c"
          and eq: "cs = pre @ t @ post"
          and b: "pre = [] \<or> \<not> is_alnum (last pre)" "post = [] \<or> \<not> is_alnum (hd post)"
        by auto
      have "cur @ c # cs = (cur @ c # pre) @ t @ post"
        using eq by simp
      moreover have "\<not> is_alnum (last (cur @ c # pre))"
        using b(1) False by auto
      ultimately show ?thesis
        using t b(2) by blast
    qed
  qed
qed

lemma findall_acc_complete:
  "cur @ s = pre @ t @ post \<Longrightarrow> \<forall>c \<in> set cur. is_alnum c \<Longrightarrow>
   t \<noteq> [] \<Longrightarrow> \<forall>c \<in> set t. is_alnum c \<Longrightarrow>
   pre = [] \<or> \<not> is_alnum (last pre) \<Longrightarrow> post = [] \<or> \<not> is_alnum (hd post) \<Longrightarrow>
   t \<in> set (findall_acc cur s)"
proof (induction s arbitrary: cur pre)
  case Nil
  have "pre = []"
  proof (rule ccontr)
    assume "pre \<noteq> []"
    then have "last pre \<in> set cur"
      using Nil.prems(1) by (metis append_Nil2 last_in_set Un_iff set_append)
    with Nil.prems(2,5) \<open>pre \<noteq> []\<close> show False by auto
  qed
  moreover have "post = []"
  proof (rule ccontr)
    assume "post \<noteq> []"
    then have "hd post \<in> set cur"
      using Nil.prems(1) by (metis append_Nil2 hd_in_set Un_iff set_append)
    with Nil.prems(2,6) \<open>post \<noteq> []\<close> show False by auto
  qed
  ultimately show ?case
    using Nil.prems(1,3) by auto
next
  case (Cons c cs)
  show ?case
  proof (cases "is_alnum c")
    case True
    have "(cur @ [c]) @ cs = pre @ t @ post" "\<forall>x \<in> set (cur @ [c]). is_alnum x"
      using Cons.prems(1,2) True by auto
    from Cons.IH [OF this Cons.prems(3-6)] True show ?thesis by simp
  next
    case False
    have res: "set (findall_acc cur (c # cs)) = (if cur = [] then {} else {cur}) \<union> set (findall_acc [] cs)"
      using False by simp
    from Cons.prems(1) consider
        (A) us where "cur = pre @ us" "us @ c # cs = t @ post"
      | (B) us where "cur @ us = pre" "c # cs = us @ t @ post"
      by (auto simp: append_eq_append_conv2)
    then show ?thesis
    proof cases
      case A
      have pre: "pre = []"
      proof (rule ccontr)
        assume "pre \<noteq> []"
        then have "last pre \<in> set cur"
          using A(1) by simp
        with Cons.prems(2,5) \<open>pre \<noteq> []\<close> show False by auto
      qed
      with A have eq: "cur @ c # cs = t @ post"
        by simp
      then consider
          (A1) vs where "cur = t @ vs" "vs @ c # cs = post"
        | (A2) vs where "cur @ vs = t" "c # cs = vs @ post"
        by (auto simp: append_eq_append_conv2)
      then have "t = cur"
      proof cases
        case A1
        have "vs = []"
        proof (rule ccontr)
          assume "vs \<noteq> []"
          then have "hd post = hd vs" "hd vs \<in> set cur" "post \<noteq> []"
            using A1 by auto
          with Cons.prems(2,6) show False by auto
        qed
        with A1 show ?thesis by simp
      next
        case A2
        have "vs = []"
        proof (rule ccontr)
          assume "vs \<noteq> []"
          then have "hd vs = c" "hd vs \<in> set t"
            using A2 by (auto simp: Cons_eq_append_conv)
          with Cons.prems(4) False show False by auto
        qed
        with A2 show ?thesis by simp
      qed
      with Cons.prems(3) res show ?thesis by simp
    next
      case B
      have "us \<noteq> []"
      proof
        assume "us = []"
        with B(2) Cons.prems(3) have "c \<in> set t"
          by (cases t) auto
        with Cons.prems(4) False show False by auto
      qed
      with B(2) obtain us' where us: "us = c # us'" "cs = us' @ t @ post"
        by (cases us) auto
      have "us' = [] \<or> \<not> is_alnum (last us')"
        using Cons.prems(5) B(1) us(1) by auto
      moreover have "[] @ cs = us' @ t @ post"
        using us(2) by simp
      ultimately have "t \<in> set (findall_acc [] cs)"
        using Cons.IH [of "[]" us'] Cons.prems(3,4,6) by simp
      with res show ?thesis by simp
    qed
  qed
qed

lemma findall_alnum_iff_token: "t \<in> set (findall_alnum s) \<longleftrightarrow> alnum_token s t"
  unfolding findall_alnum_def alnum_token_def
  using findall_acc_sound [of t "[]" s] findall_acc_complete [of "[]" s _ t]
  by auto

section \<open>Properties of the submission grader\<close>

lemma grade_loop_append:
  "grade_loop idx (xs @ ys) answers vars =
     (case grade_loop idx xs answers vars of
        Inl e \<Rightarrow> Inl e
      | Inr vars' \<Rightarrow> grade_loop (idx + length xs) ys answers vars')"
  by (induction xs arbitrary: idx vars) (auto split: sum.splits)

lemma grade_loop_snoc:
  "grade_loop 0 items answers vars = Inr vars' \<Longrightarrow>
   grade_loop 0 (items @ [item]) answers vars = grade_item (length items) item answers vars'"
  by (simp add: grade_loop_append split: sum.splits)

lemma grade_item_short:
  "item_type item = Some t \<Longrightarrow> t \<noteq> ''mcq'' \<Longrightarrow>
   grade_item idx item answers (sc, fb, wa) =
     (if max 1 (length (get_or (item_keywords item) []) div 2)
           \<le> keyword_hits (get_or (item_keywords item) []) (user_answer answers idx)
      then Inr (sc + 1, fb @ [''Q'' @ str_nat (idx + 1) @ '': Good. Covered key points.''], wa)
      else Inr (sc,
                fb @ [''Q'' @ str_nat (idx + 1) @ '': Needs improvement. Mention: ''
                        @ (if miss (get_or (item_keywords item) []) (user_answer answers idx) \<noteq> []
                           then join '', '' (miss (get_or (item_keywords item) []) (user_answer answers idx))
                           else ''more specifics'')
                        @ ''.''],
                wa @ (if miss (get_or (item_keywords item) []) (user_answer answers idx) \<noteq> []
                      then miss (get_or (item_keywords item) []) (user_answer answers idx)
                      else [get_or (topic_tag item) []])))"
  by (simp add: grade_item.simps Let_def)

lemma grade_item_mcq:
  "item_type item = Some ''mcq'' \<Longrightarrow> answer item = Some a \<Longrightarrow> explanation item = Some e \<Longrightarrow>
   grade_item idx item answers (sc, fb, wa) =
     (if user_answer answers idx = strip a
      then Inr (sc + 1, fb @ [''Q'' @ str_nat (idx + 1) @ '': Correct.''], wa)
      else Inr (sc, fb @ [''Q'' @ str_nat (idx + 1) @ '': Incorrect. '' @ e],
                wa @ [get_or (topic_tag item) []]))"
  by (simp add: grade_item.simps Let_def)

lemma grade_item_shape:
  assumes "grade_item idx item answers (sc, fb, wa) = Inr (sc', fb', wa')"
  shows "(sc' = sc \<or> sc' = sc + 1) \<and> (\<exists>f. fb' = fb @ [f]) \<and> (\<exists>w. wa' = wa @ w)"
  using assms
  by (auto simp: grade_item.simps Let_def split: option.splits if_splits)

lemma grade_item_rebase:
  assumes "grade_item idx item answers (sc, fb, wa) = Inr (sc', fb', wa')"
  shows "\<exists>d f w. sc' = sc + d \<and> fb' = fb @ [f] \<and> wa' = wa @ w
           \<and> grade_item idx item answers (0, [], []) = Inr (d, [f], w)"
  using assms
  by (auto simp: grade_item.simps Let_def split: option.splits if_splits)

lemma grade_quiz_submission_Inr:
  "grade_quiz_submission items answers = Inr r \<longleftrightarrow>
     (\<exists>sc fb wa. grade_loop 0 items answers (0, [], []) = Inr (sc, fb, wa)
        \<and> r = \<lparr> score = sc, total = int (length items), feedback_list = fb,
                 weak_areas = filter (\<lambda>w. w \<noteq> []) wa \<rparr>)"
  by (auto simp: grade_quiz_submission_def split: sum.splits)

lemma grade_item_total:
  "well_formed item \<Longrightarrow> \<exists>vars'. grade_item idx item answers vars = Inr vars'"
  by (cases vars rule: prod_cases3)
     (auto simp: well_formed_def grade_item.simps Let_def split: option.splits)

lemma grade_loop_total:
  "\<forall>item \<in> set items. well_formed item \<Longrightarrow> \<exists>vars'. grade_loop idx items answers vars = Inr vars'"
proof (induction items arbitrary: idx vars)
  case Nil
  show ?case by (rule exI [of _ vars]) simp
next
  case (Cons item items)
  then obtain v1 where "grade_item idx item answers vars = Inr v1"
    using grade_item_total [of item idx answers vars] by auto
  with Cons show ?case by simp
qed

lemma grade_loop_inv:
  "grade_loop idx items answers (sc, fb, wa) = Inr (sc', fb', wa') \<Longrightarrow>
   sc \<le> sc' \<and> sc' \<le> sc + int (length items)
   \<and> (\<exists>fs. fb' = fb @ fs \<and> length fs = length items
         \<and> (\<forall>i < length items. \<exists>d w.
               grade_item (idx + i) (items ! i) answers (0, [], []) = Inr (d, [fs ! i], w)))"
proof (induction items arbitrary: idx sc fb wa)
  case Nil
  then show ?case by simp
next
  case (Cons item items)
  from Cons.prems obtain sc1 fb1 wa1
    where step: "grade_item idx item answers (sc, fb, wa) = Inr (sc1, fb1, wa1)"
      and rest: "grade_loop (Suc idx) items answers (sc1, fb1, wa1) = Inr (sc', fb', wa')"
    by (auto split: sum.splits)
  from grade_item_rebase [OF step] obtain d f w
    where d: "sc1 = sc + d" and f: "fb1 = fb @ [f]"
      and base: "grade_item idx item answers (0, [], []) = Inr (d, [f], w)"
    by blast
  from grade_item_shape [OF step] have sc1: "sc1 = sc \<or> sc1 = sc + 1"
    by simp
  from Cons.IH [OF rest] obtain fs
    where bounds: "sc1 \<le> sc'" "sc' \<le> sc1 + int (length items)"
      and fs: "fb' = fb1 @ fs" "length fs = length items"
      and each: "\<forall>i < length items. \<exists>d w.
               grade_item (Suc idx + i) (items ! i) answers (0, [], []) = Inr (d, [fs ! i], w)"
    by blast
  have "\<exists>d w. grade_item (idx + i) ((item # items) ! i) answers (0, [], []) = Inr (d, [(f # fs) ! i], w)"
    if "i < length (item # items)" for i
  proof (cases i)
    case 0
    with base show ?thesis by auto
  next
    case (Suc j)
    with that each show ?thesis by auto
  qed
  moreover have "fb' = fb @ (f # fs)" "length (f # fs) = length (item # items)"
    using fs f by simp_all
  moreover have "sc \<le> sc'" "sc' \<le> sc + int (length (item # items))"
    using bounds sc1 by auto
  ultimately show ?case by blast
qed

lemma grade_loop_answers_cong:
  "\<forall>i < length items. answers (''q_'' @ str_nat (idx + i)) = answers' (''q_'' @ str_nat (idx + i)) \<Longrightarrow>
   grade_loop idx items answers vars = grade_loop idx items answers' vars"
proof (induction items arbitrary: idx vars)
  case Nil
  then show ?case by simp
next
  case (Cons item items)
  from Cons.prems have "answers (''q_'' @ str_nat idx) = answers' (''q_'' @ str_nat idx)"
    by force
  then have "user_answer answers idx = user_answer answers' idx"
    by (simp add: user_answer_def)
  then have step: "grade_item idx item answers vars = grade_item idx item answers' vars"
    by (cases vars) (simp add: grade_item.simps)
  have "\<forall>i < length items. answers (''q_'' @ str_nat (Suc idx + i)) = answers' (''q_'' @ str_nat (Suc idx + i))"
    using Cons.prems by force
  from Cons.IH [OF this] step show ?case
    by (simp split: sum.splits)
qed

lemma strip_Nil: "strip [] = []"
  by (simp add: strip_def)

lemma user_answer_empty: "user_answer Map.empty idx = []"
  by (simp add: user_answer_def get_or_def strip_Nil)

lemma strip_Cons_nonspace: "\<not> is_space c \<Longrightarrow> strip (c # s) \<noteq> []"
  by (simp add: strip_def)

lemma findall_acc_Nil: "findall_acc [] [] = []"
  by simp

lemma keyword_hits_empty_answer: "keyword_hits kws [] = 0"
  by (simp add: keyword_hits_def user_tokens_def lower_def findall_alnum_def)

lemma miss_empty_answer: "miss kws [] = kws"
  by (simp add: miss_def user_tokens_def lower_def findall_alnum_def)

lemma mcq_item_answer_strip:
  assumes "c \<in> set ''ABCD''"
  shows "\<exists>a. answer (mcq_item t s d c) = Some a \<and> strip a \<noteq> []"
proof -
  have O: "\<not> is_space (CHR ''O'')"
    by (simp add: is_space_def)
  from assms show ?thesis
    by (auto simp: mcq_item_def mcq_options_def Let_def strip_Cons_nonspace [OF O])
qed

lemma grade_item_unanswered_mcq:
  assumes "c \<in> set ''ABCD''"
  shows "\<exists>f w. grade_item idx (mcq_item t s d c) Map.empty (sc, fb, wa) = Inr (sc, fb @ [f], wa @ w)"
proof -
  from mcq_item_answer_strip [OF assms] obtain a
    where a: "answer (mcq_item t s d c) = Some a" "strip a \<noteq> []"
    by blast
  have e: "\<exists>e. explanation (mcq_item t s d c) = Some e"
    by (simp add: mcq_item_def Let_def)
  then obtain e where e: "explanation (mcq_item t s d c) = Some e" ..
  show ?thesis
    using a by (simp add: grade_item_mcq [OF mcq_item_type a(1) e] user_answer_empty)
qed

lemma grade_item_unanswered_short:
  assumes "item_type item = Some t" "t \<noteq> ''mcq''"
  shows "\<exists>f w. grade_item idx item Map.empty (sc, fb, wa) = Inr (sc, fb @ [f], wa @ w)"
  by (simp add: grade_item_short [OF assms] user_answer_empty keyword_hits_empty_answer)

lemma grade_loop_unanswered:
  assumes "\<forall>item \<in> set items.
             (\<exists>c \<in> set ''ABCD''. item = mcq_item t s d c) \<or> (\<exists>st. item = short_item t s d st)"
  shows "\<exists>fb' wa'. grade_loop idx items Map.empty (sc, fb, wa) = Inr (sc, fb', wa')"
  using assms
proof (induction items arbitrary: idx fb wa)
  case Nil
  then show ?case by simp
next
  case (Cons item items)
  have "\<exists>f w. grade_item idx item Map.empty (sc, fb, wa) = Inr (sc, fb @ [f], wa @ w)"
  proof -
    from Cons.prems consider (m) c where "c \<in> set ''ABCD''" "item = mcq_item t s d c"
      | (s) st where "item = short_item t s d st"
      by auto
    then show ?thesis
    proof cases
      case m
      then show ?thesis using grade_item_unanswered_mcq by simp
    next
      case s
      have "item_type item = Some ''short''" "''short'' \<noteq> ''mcq''"
        using s by (simp_all add: short_item_type)
      then show ?thesis by (rule grade_item_unanswered_short)
    qed
  qed
  then obtain f w where "grade_item idx item Map.empty (sc, fb, wa) = Inr (sc, fb @ [f], wa @ w)"
    by blast
  moreover have "\<exists>fb' wa'. grade_loop (Suc idx) items Map.empty (sc, fb @ [f], wa @ w) = Inr (sc, fb', wa')"
    using Cons.IH Cons.prems by simp
  ultimately show ?case by simp
qed

lemma generated_items_cases:
  "item \<in> set (fst (generate_quiz_items t s d m n g)) \<Longrightarrow>
   (\<exists>c \<in> set ''ABCD''. item = mcq_item t s d c) \<or> (\<exists>st. item = short_item t s d st)"
  unfolding fst_generate_quiz_items set_append
  using mcq_loop_items short_loop_items by blast

lemma keyword_hits_tokens:
  "keyword_hits kws ua = length (filter (\<lambda>kw. alnum_token (lower ua) (lower kw)) kws)"
  by (simp add: keyword_hits_def user_tokens_def findall_alnum_iff_token)

lemma miss_tokens:
  "miss kws ua = filter (\<lambda>kw. \<not> alnum_token (lower ua) (lower kw)) kws"
  by (simp add: miss_def user_tokens_def findall_alnum_iff_token)

lemma hits_plus_miss: "keyword_hits kws ua + length (miss kws ua) = length kws"
  unfolding keyword_hits_def miss_def
  by (rule sum_length_filter_compl)

lemma miss_empty_on_failure:
  assumes "\<not> max 1 (length kws div 2) \<le> keyword_hits kws ua"
  shows "miss kws ua = [] \<longleftrightarrow> kws = []"
proof
  assume "miss kws ua = []"
  with hits_plus_miss [of kws ua] have "keyword_hits kws ua = length kws"
    by simp
  with assms have "\<not> max 1 (length kws div 2) \<le> length kws"
    by simp
  then have "\<not> 0 < length kws"
    by (metis One_nat_def Suc_leI div_le_dividend max.bounded_iff)
  then show "kws = []"
    by simp
next
  assume "kws = []"
  then show "miss kws ua = []" by (simp add: miss_def)
qed

text \<open>
  Claim C1: a short item is graded on the tokens of the submitted answer. With \<open>ua\<close> the
  trimmed, lower-cased answer stored under the item's index, \<open>hits\<close> counts the keywords
  whose lower-case form is a token of \<open>ua\<close> (a maximal run of alphanumeric characters);
  the item passes, and the score grows by one, exactly when
  \<open>hits \<ge> max(1, len(keywords) // 2)\<close>; otherwise the score stays and the loop's
  \<open>weak_areas\<close> is extended with the missed keywords, or with the topic tag when the item
  has no keywords at all. The returned result carries that score and that list without
  its empty strings.
\<close>

theorem short_item_grading:
  assumes "item_type item = Some ''short''"
      and "grade_loop 0 items answers (0, [], []) = Inr (sc, fb, wa)"
  shows "let kws = get_or (item_keywords item) [];
             ua = lower (strip (get_or (answers (''q_'' @ str_nat (length items))) []));
             hits = length (filter (\<lambda>kw. alnum_token ua (lower kw)) kws);
             missed = filter (\<lambda>kw. \<not> alnum_token ua (lower kw)) kws;
             passed = (max 1 (length kws div 2) \<le> hits);
             sc' = (if passed then sc + 1 else sc);
             wa' = (if passed then wa
                    else wa @ (if kws = [] then [get_or (topic_tag item) []] else missed))
         in (\<exists>f. grade_loop 0 (items @ [item]) answers (0, [], []) = Inr (sc', fb @ [f], wa'))
          \<and> (\<exists>r'. grade_quiz_submission (items @ [item]) answers = Inr r'
                \<and> score r' = sc' \<and> weak_areas r' = filter (\<lambda>w. w \<noteq> []) wa')"
proof -
  let ?kws = "get_or (item_keywords item) []"
  let ?ua = "user_answer answers (length items)"
  have ne: "''short'' \<noteq> ''mcq''" by simp
  have step: "grade_loop 0 (items @ [item]) answers (0, [], [])
                = grade_item (length items) item answers (sc, fb, wa)"
    using assms(2) by (rule grade_loop_snoc)
  show ?thesis
  proof (cases "max 1 (length ?kws div 2) \<le> keyword_hits ?kws ?ua")
    case True
    then show ?thesis
      unfolding grade_quiz_submission_def step grade_item_short [OF assms(1) ne]
      by (simp add: Let_def keyword_hits_tokens user_answer_def)
  next
    case False
    from miss_empty_on_failure [OF False] False show ?thesis
      unfolding grade_quiz_submission_def step grade_item_short [OF assms(1) ne]
      by (simp add: Let_def keyword_hits_tokens miss_tokens user_answer_def)
  qed
qed

text \<open>
  The scenario of the specification: keywords \<open>derivative\<close> and \<open>integral\<close>, threshold 1,
  an answer that mentions only the first; the item passes.
\<close>

theorem short_item_grading_witness:
  "item_type demo_short = Some ''short''
   \<and> grade_loop 0 [demo_mcq] demo_answers (0, [], []) = Inr (1, [''Q1: Correct.''], [])
   \<and> length (filter (\<lambda>kw. alnum_token (lower (strip ''The Derivative is a slope.'')) (lower kw))
               [''derivative'', ''integral'']) = 1
   \<and> (\<exists>r'. grade_quiz_submission [demo_mcq, demo_short] demo_answers = Inr r'
          \<and> score r' = 2 \<and> weak_areas r' = [])"
proof -
  have h1: "item_type demo_short = Some ''short''"
    by (simp add: demo_short_def)
  have h2: "grade_loop 0 [demo_mcq] demo_answers (0, [], []) = Inr (1, [''Q1: Correct.''], [])"
    by code_simp
  have kws: "get_or (item_keywords demo_short) [] = [''derivative'', ''integral'']"
    by (simp add: demo_short_def get_or_def)
  have ua: "get_or (demo_answers (''q_'' @ str_nat (length [demo_mcq]))) []
              = ''The Derivative is a slope.''"
    by code_simp
  have "length (filter (\<lambda>kw. lower kw \<in> set (findall_alnum (lower (strip ''The Derivative is a slope.''))))
               [''derivative'', ''integral'']) = 1"
    by code_simp
  then have hits: "length (filter (\<lambda>kw. alnum_token (lower (strip ''The Derivative is a slope.'')) (lower kw))
               [''derivative'', ''integral'']) = 1"
    by (simp only: findall_alnum_iff_token)
  have thr: "max 1 (length [''derivative'', ''integral''] div 2) \<le> (1::nat)"
    by simp
  note inst = short_item_grading [OF h1 h2, unfolded Let_def kws ua hits]
  from inst thr have "\<exists>r'. grade_quiz_submission ([demo_mcq] @ [demo_short]) demo_answers = Inr r'
          \<and> score r' = 1 + 1 \<and> weak_areas r' = filter (\<lambda>w. w \<noteq> []) []"
    by (simp only: if_True)
  with h1 h2 hits show ?thesis
    by simp
qed

text \<open>
  Claim C2: an mcq item is scored by comparing the trimmed submitted answer with the
  trimmed item answer. On a match the score grows by one and the feedback is
  \<open>Q<idx+1>: Correct.\<close>; on a mismatch the score stays, the feedback is
  \<open>Q<idx+1>: Incorrect.\<close> followed by the item's explanation, and the topic tag joins
  the weak areas of the result unless it is empty.
\<close>

theorem mcq_item_grading:
  assumes "item_type item = Some ''mcq''"
      and "answer item = Some a"
      and "explanation item = Some e"
      and "grade_quiz_submission items answers = Inr r"
  shows "\<exists>r'. grade_quiz_submission (items @ [item]) answers = Inr r' \<and>
           (if strip (get_or (answers (''q_'' @ str_nat (length items))) []) = strip a
            then score r' = score r + 1
               \<and> feedback_list r' =
                   feedback_list r @ [''Q'' @ str_nat (length items + 1) @ '': Correct.'']
               \<and> weak_areas r' = weak_areas r
            else score r' = score r
               \<and> feedback_list r' =
                   feedback_list r @ [''Q'' @ str_nat (length items + 1) @ '': Incorrect. '' @ e]
               \<and> weak_areas r' =
                   weak_areas r @ (if get_or (topic_tag item) [] = [] then []
                                   else [get_or (topic_tag item) []]))"
proof -
  from assms(4) obtain sc fb wa
    where loop: "grade_loop 0 items answers (0, [], []) = Inr (sc, fb, wa)"
      and r: "r = \<lparr> score = sc, total = int (length items), feedback_list = fb,
                     weak_areas = filter (\<lambda>w. w \<noteq> []) wa \<rparr>"
    by (auto simp: grade_quiz_submission_Inr)
  have step: "grade_loop 0 (items @ [item]) answers (0, [], [])
                = grade_item (length items) item answers (sc, fb, wa)"
    using loop by (rule grade_loop_snoc)
  show ?thesis
    unfolding grade_quiz_submission_def step grade_item_mcq [OF assms(1-3)]
    by (simp add: r user_answer_def)
qed

text \<open>The scenario of the specification: answer \<open>o2\<close> to an item whose answer is \<open>o2\<close>.\<close>

theorem mcq_item_grading_witness:
  "item_type demo_mcq = Some ''mcq''
   \<and> answer demo_mcq = Some ''o2''
   \<and> explanation demo_mcq = Some ''The correct answer is B due to core concept alignment.''
   \<and> grade_quiz_submission [] demo_answers
        = Inr \<lparr> score = 0, total = 0, feedback_list = [], weak_areas = [] \<rparr>
   \<and> (\<exists>r'. grade_quiz_submission [demo_mcq] demo_answers = Inr r'
          \<and> score r' = 1 \<and> feedback_list r' = [''Q1: Correct.''] \<and> weak_areas r' = [])"
proof -
  have h1: "item_type demo_mcq = Some ''mcq''"
    by (simp add: demo_mcq_def)
  have h2: "answer demo_mcq = Some ''o2''"
    by (simp add: demo_mcq_def)
  have h3: "explanation demo_mcq = Some ''The correct answer is B due to core concept alignment.''"
    by (simp add: demo_mcq_def)
  have h4: "grade_quiz_submission [] demo_answers
        = Inr \<lparr> score = 0, total = 0, feedback_list = [], weak_areas = [] \<rparr>"
    by (simp add: grade_quiz_submission_def)
  have c: "strip (get_or (demo_answers (''q_'' @ str_nat (length ([] :: quiz_item list)))) []) = strip ''o2''"
    by code_simp
  have n: "str_nat (length ([] :: quiz_item list) + 1) = ''1''"
    by code_simp
  from mcq_item_grading [OF h1 h2 h3 h4] c n h1 h2 h3 h4 show ?thesis
    by simp
qed

text \<open>
  Claim C3: grading returns for every list of items that carry the keys it indexes, and
  every result it returns has \<open>total = len(items)\<close>, one feedback entry per item in item
  order (entry \<open>i\<close> is the entry that the loop body produces for item \<open>i\<close> at index
  \<open>i\<close>), no empty string among the weak areas, and \<open>0 \<le> score \<le> total\<close>.
\<close>

theorem grade_result_shape:
  "((\<forall>item \<in> set items. well_formed item) \<longrightarrow> (\<exists>r. grade_quiz_submission items answers = Inr r))
   \<and> (\<forall>r. grade_quiz_submission items answers = Inr r \<longrightarrow>
          total r = int (length items)
        \<and> length (feedback_list r) = length items
        \<and> (\<forall>i < length items. \<exists>d w.
              grade_item i (items ! i) answers (0, [], []) = Inr (d, [feedback_list r ! i], w))
        \<and> [] \<notin> set (weak_areas r)
        \<and> 0 \<le> score r \<and> score r \<le> total r)"
proof -
  have returns: "\<exists>r. grade_quiz_submission items answers = Inr r"
    if "\<forall>item \<in> set items. well_formed item"
  proof -
    from that obtain vars' where "grade_loop 0 items answers (0, [], []) = Inr vars'"
      using grade_loop_total by blast
    then show ?thesis
      by (cases vars' rule: prod_cases3) (simp add: grade_quiz_submission_def)
  qed
  have shape: "total r = int (length items)
        \<and> length (feedback_list r) = length items
        \<and> (\<forall>i < length items. \<exists>d w.
              grade_item i (items ! i) answers (0, [], []) = Inr (d, [feedback_list r ! i], w))
        \<and> [] \<notin> set (weak_areas r)
        \<and> 0 \<le> score r \<and> score r \<le> total r"
    if "grade_quiz_submission items answers = Inr r" for r
  proof -
    from that obtain sc fb wa
      where loop: "grade_loop 0 items answers (0, [], []) = Inr (sc, fb, wa)"
        and r: "r = \<lparr> score = sc, total = int (length items), feedback_list = fb,
                       weak_areas = filter (\<lambda>w. w \<noteq> []) wa \<rparr>"
      by (auto simp: grade_quiz_submission_Inr)
    from grade_loop_inv [OF loop] r show ?thesis
      by auto
  qed
  from returns shape show ?thesis
    by blast
qed

text \<open>An mcq item and a short item, both answered correctly.\<close>

theorem grade_result_shape_witness:
  "well_formed demo_mcq \<and> well_formed demo_short
   \<and> grade_quiz_submission [demo_mcq, demo_short] demo_answers
       = Inr \<lparr> score = 2, total = 2,
               feedback_list = [''Q1: Correct.'', ''Q2: Good. Covered key points.''],
               weak_areas = [] \<rparr>
   \<and> total \<lparr> score = 2, total = 2,
               feedback_list = [''Q1: Correct.'', ''Q2: Good. Covered key points.''],
               weak_areas = [] \<rparr> = int (length [demo_mcq, demo_short])
   \<and> (\<exists>d w. grade_item 1 demo_short demo_answers (0, [], [])
               = Inr (d, [''Q2: Good. Covered key points.''], w))"
proof -
  have wf: "well_formed demo_mcq" "well_formed demo_short"
    by (simp_all add: well_formed_def demo_mcq_def demo_short_def)
  have g: "grade_quiz_submission [demo_mcq, demo_short] demo_answers
       = Inr \<lparr> score = 2, total = 2,
               feedback_list = [''Q1: Correct.'', ''Q2: Good. Covered key points.''],
               weak_areas = [] \<rparr>"
    by code_simp
  from grade_result_shape [of "[demo_mcq, demo_short]" demo_answers] g
  have "total \<lparr> score = 2, total = 2,
               feedback_list = [''Q1: Correct.'', ''Q2: Good. Covered key points.''],
               weak_areas = [] \<rparr> = int (length [demo_mcq, demo_short])"
    and "\<forall>i < length [demo_mcq, demo_short]. \<exists>d w.
              grade_item i ([demo_mcq, demo_short] ! i) demo_answers (0, [], [])
                = Inr (d, [[''Q1: Correct.'', ''Q2: Good. Covered key points.''] ! i], w)"
    by simp_all
  from this(1) this(2) [rule_format, of 1] wf g show ?thesis
    by simp
qed

text \<open>
  Claim C6: grading the items that \<open>generate_quiz_items\<close> produces against a submission
  with no keys returns a result with score 0, for every outcome of the random draws; and
  a short item, whatever its keywords (none at all included), leaves the score
  unchanged on such a submission.
\<close>

theorem unanswered_quiz_scores_zero:
  "(\<exists>r. grade_quiz_submission (fst (generate_quiz_items topic subject difficulty num_mcq num_short g))
           Map.empty = Inr r \<and> score r = 0)
   \<and> (\<forall>item. item_type item = Some ''short'' \<longrightarrow>
         (\<exists>f w. grade_item idx item Map.empty (sc, fb, wa) = Inr (sc, fb @ [f], wa @ w)))"
proof -
  let ?items = "fst (generate_quiz_items topic subject difficulty num_mcq num_short g)"
  have "\<forall>item \<in> set ?items.
          (\<exists>c \<in> set ''ABCD''. item = mcq_item topic subject difficulty c)
          \<or> (\<exists>st. item = short_item topic subject difficulty st)"
    using generated_items_cases by blast
  from grade_loop_unanswered [OF this, of 0 0 "[]" "[]"]
  have "\<exists>r. grade_quiz_submission ?items Map.empty = Inr r \<and> score r = 0"
    by (auto simp: grade_quiz_submission_def)
  moreover have "\<exists>f w. grade_item idx item Map.empty (sc, fb, wa) = Inr (sc, fb @ [f], wa @ w)"
    if "item_type item = Some ''short''" for item
  proof -
    have "''short'' \<noteq> ''mcq''" by simp
    with that show ?thesis by (rule grade_item_unanswered_short)
  qed
  ultimately show ?thesis by blast
qed

text \<open>A topic with no word longer than three characters: the short item has no keywords.\<close>

theorem unanswered_quiz_scores_zero_witness:
  "item_type (short_item ''set'' ''Math'' ''Easy'' (hd starters)) = Some ''short''
   \<and> item_keywords (short_item ''set'' ''Math'' ''Easy'' (hd starters)) = Some []
   \<and> (\<exists>f w. grade_item 1 (short_item ''set'' ''Math'' ''Easy'' (hd starters)) Map.empty
               (0, [''Q1''], []) = Inr (0, [''Q1''] @ [f], [] @ w))
   \<and> (\<exists>r. grade_quiz_submission (fst (generate_quiz_items ''set'' ''Math'' ''Easy'' 1 1 (const_rng 1)))
             Map.empty = Inr r \<and> score r = 0)"
proof -
  have h: "item_type (short_item ''set'' ''Math'' ''Easy'' (hd starters)) = Some ''short''"
    by (rule short_item_type)
  have k: "item_keywords (short_item ''set'' ''Math'' ''Easy'' (hd starters)) = Some []"
    by code_simp
  from unanswered_quiz_scores_zero
         [of "''set''" "''Math''" "''Easy''" 1 1 "const_rng 1" 1 0 "[''Q1'']" "[]"] h k
  show ?thesis
    by blast
qed

text \<open>
  Claim C9: grading is a function of its two arguments, and of the answers it reads only
  the entries under the keys \<open>q_0\<close>, ..., \<open>q_<len(items)-1>\<close>: two submissions that
  agree on these keys give identical results (score, total, feedback and weak areas), so
  in particular the same items and answers always give the same result.
\<close>

theorem grading_depends_only_on_its_arguments:
  assumes "\<forall>i < length items. answers (''q_'' @ str_nat i) = answers' (''q_'' @ str_nat i)"
  shows "grade_quiz_submission items answers = grade_quiz_submission items answers'"
  using grade_loop_answers_cong [of items answers 0 answers' "(0, [], [])"] assms
  by (simp add: grade_quiz_submission_def)

text \<open>Two submissions that differ only under a key beyond the last item.\<close>

theorem grading_depends_only_on_its_arguments_witness:
  "demo_answers ''q_0'' = more_answers ''q_0''
   \<and> demo_answers ''q_1'' = more_answers ''q_1''
   \<and> demo_answers ''q_2'' \<noteq> more_answers ''q_2''
   \<and> grade_quiz_submission [demo_mcq, demo_short] demo_answers
       = grade_quiz_submission [demo_mcq, demo_short] more_answers"
proof -
  have k0: "''q_'' @ str_nat 0 = ''q_0''" and k1: "''q_'' @ str_nat 1 = ''q_1''"
    by code_simp+
  have a0: "demo_answers ''q_0'' = more_answers ''q_0''"
    and a1: "demo_answers ''q_1'' = more_answers ''q_1''"
    and a2: "demo_answers ''q_2'' \<noteq> more_answers ''q_2''"
    by (simp_all add: more_answers_def demo_answers_def)
  have "\<forall>i < length [demo_mcq, demo_short].
          demo_answers (''q_'' @ str_nat i) = more_answers (''q_'' @ str_nat i)"
    using a0 a1 k0 k1 by (simp add: less_Suc_eq)
  from grading_depends_only_on_its_arguments [OF this] a0 a1 a2 show ?thesis
    by simp
qed

text \<open>
  Claim C10 as stated fails on the text of the feedback: a short item that passes gets
  \<open>Q<idx+1>: Good. Covered key points.\<close>, which is not the string
  \<open>Good, covered key points\<close>.
\<close>

theorem short_item_feedback_counterexample:
  "grade_quiz_submission [demo_mcq, demo_short] demo_answers
     = Inr \<lparr> score = 2, total = 2,
             feedback_list = [''Q1: Correct.'', ''Q2: Good. Covered key points.''],
             weak_areas = [] \<rparr>
   \<and> ''Q2: Good. Covered key points.'' \<noteq> ''Good, covered key points''"
  by code_simp

text \<open>
  Claim C10, amended: for a short item that passes the keyword-hit threshold the feedback
  is \<open>Q<idx+1>: Good. Covered key points.\<close>; for one that fails it is
  \<open>Q<idx+1>: Needs improvement. Mention: <m>.\<close>, where \<open><m>\<close> is the missed keywords
  joined by a comma and a space, or \<open>more specifics\<close> if no keyword was missed.
\<close>

theorem short_item_feedback:
  assumes "item_type item = Some ''short''"
      and "grade_quiz_submission items answers = Inr r"
  shows "\<exists>r'. grade_quiz_submission (items @ [item]) answers = Inr r' \<and>
           feedback_list r' = feedback_list r @
             [let kws = get_or (item_keywords item) [];
                  ua = user_answer answers (length items)
              in if max 1 (length kws div 2) \<le> keyword_hits kws ua
                 then ''Q'' @ str_nat (length items + 1) @ '': Good. Covered key points.''
                 else ''Q'' @ str_nat (length items + 1) @ '': Needs improvement. Mention: ''
                        @ (if miss kws ua = [] then ''more specifics'' else join '', '' (miss kws ua))
                        @ ''.'']"
proof -
  from assms(2) obtain sc fb wa
    where loop: "grade_loop 0 items answers (0, [], []) = Inr (sc, fb, wa)"
      and r: "r = \<lparr> score = sc, total = int (length items), feedback_list = fb,
                     weak_areas = filter (\<lambda>w. w \<noteq> []) wa \<rparr>"
    by (auto simp: grade_quiz_submission_Inr)
  have ne: "''short'' \<noteq> ''mcq''" by simp
  have step: "grade_loop 0 (items @ [item]) answers (0, [], [])
                = grade_item (length items) item answers (sc, fb, wa)"
    using loop by (rule grade_loop_snoc)
  show ?thesis
    unfolding grade_quiz_submission_def step grade_item_short [OF assms(1) ne]
    by (simp add: r Let_def)
qed

text \<open>An unanswered short item: both keywords are missed.\<close>

theorem short_item_feedback_witness:
  "item_type demo_short = Some ''short''
   \<and> grade_quiz_submission [] Map.empty
        = Inr \<lparr> score = 0, total = 0, feedback_list = [], weak_areas = [] \<rparr>
   \<and> (\<exists>r'. grade_quiz_submission [demo_short] Map.empty = Inr r'
          \<and> feedback_list r' = [''Q1: Needs improvement. Mention: derivative, integral.''])"
proof -
  have h1: "item_type demo_short = Some ''short''"
    by (simp add: demo_short_def)
  have h2: "grade_quiz_submission [] Map.empty
        = Inr \<lparr> score = 0, total = 0, feedback_list = [], weak_areas = [] \<rparr>"
    by (simp add: grade_quiz_submission_def)
  have f: "(let kws = get_or (item_keywords demo_short) [];
                ua = user_answer Map.empty (length ([] :: quiz_item list))
            in if max 1 (length kws div 2) \<le> keyword_hits kws ua
               then ''Q'' @ str_nat (length ([] :: quiz_item list) + 1) @ '': Good. Covered key points.''
               else ''Q'' @ str_nat (length ([] :: quiz_item list) + 1) @ '': Needs improvement. Mention: ''
                      @ (if miss kws ua = [] then ''more specifics'' else join '', '' (miss kws ua))
                      @ ''.'')
           = ''Q1: Needs improvement. Mention: derivative, integral.''"
    by code_simp
  from short_item_feedback [OF h1 h2] h1 h2 show ?thesis
    unfolding f by simp
qed

section \<open>Properties of the analytics aggregator\<close>

subsection \<open>Rounding to float64\<close>


lemma pow2_powi: "pow2 e = 2 powi e"
  by (simp add: pow2_def power_int_def field_simps)


lemma pow2_add: "pow2 (a + b) = pow2 a * pow2 b"
  by (simp add: pow2_powi power_int_add)













subsection \<open>Average percentage\<close>




subsection \<open>Weak-area frequency\<close>



















end
